theory Spec2Isabelle
  imports
    Complex_Main
    "HOL-Library.Char_ord"
    "HOL-Library.List_Lexorder"
    "HOL-Library.Option_ord"
    "HOL-Library.Product_Lexorder"
begin

section \<open>The Bordeaux bike-share pipeline: data model\<close>

text \<open>
  The repository holds two scripts, \<^verbatim>\<open>extract.py\<close> (the console monitor) and
  \<^verbatim>\<open>app.py\<close> (the Streamlit dashboard). Both define \<^verbatim>\<open>load_data_to_sqlite\<close> and
  \<^verbatim>\<open>run_ingestion_cycle\<close> and both carry the same text of \<^verbatim>\<open>SQL_RANKING_QUERY\<close>; the
  definitions below are prefixed \<open>extract_\<close> and \<open>app_\<close> where the two scripts differ.

  One row of the table \<^verbatim>\<open>station_status\<close>, in the column order of \<^verbatim>\<open>SQL_CREATE_TABLE\<close>.
  \<^verbatim>\<open>snapshot_time\<close> is always the string \<^verbatim>\<open>datetime.now().isoformat()\<close>; the other
  columns are nullable (\<open>None\<close> is SQL \<^verbatim>\<open>NULL\<close>). SQLite's \<^verbatim>\<open>INTEGER\<close> is a signed
  64-bit integer: it is an \<open>int\<close> here, and the places where SQLite or the Python
  binding check the 64-bit range are written out (\<open>in_int64\<close>). \<^verbatim>\<open>REAL\<close> is an IEEE double
  in SQLite; it is an exact rational here, so rounding errors of the floating-point
  hardware are outside this model.
\<close>

record row =
  snapshot_time :: string
  station_id :: "string option"
  name :: "string option"
  num_bikes_available :: "int option"
  num_docks_available :: "int option"
  latitude :: "rat option"
  longitude :: "rat option"

text \<open>
  One element of the \<^verbatim>\<open>stations\<close> list of the API's JSON body, as \<^verbatim>\<open>load_data_to_sqlite\<close>
  reads it: only through \<^verbatim>\<open>station.get(key)\<close>, which gives \<^verbatim>\<open>None\<close> for an absent key.
  The fields have the types the API documents (strings, integers, numbers); Python's
  integers are unbounded.
\<close>

record station =
  get_id :: "string option"
  get_name :: "string option"
  get_free_bikes :: "int option"
  get_empty_slots :: "int option"
  get_latitude :: "rat option"
  get_longitude :: "rat option"

text \<open>One row of the result of \<^verbatim>\<open>SQL_RANKING_QUERY\<close>, in the order of its select list.\<close>

record ranking_entry =
  entry_station_id :: "string option"
  entry_name :: "string option"
  snapshots_count :: nat
  total_bikes :: "int option"
  avg_bikes :: "rat option"
  avg_utilization_percent :: "rat option"

text \<open>
  The exceptions the two scripts can meet. \<open>SqliteError\<close> stands for \<^verbatim>\<open>sqlite3.Error\<close> and
  its subclasses, \<open>RequestException\<close> for \<^verbatim>\<open>requests.exceptions.RequestException\<close> and its
  subclasses (\<^verbatim>\<open>HTTPError\<close>, \<^verbatim>\<open>ConnectionError\<close>, \<^verbatim>\<open>Timeout\<close>, \<^verbatim>\<open>JSONDecodeError\<close>);
  \<open>PandasDatabaseError\<close> is the \<^verbatim>\<open>pandas.errors.DatabaseError\<close> in which
  \<^verbatim>\<open>pd.read_sql_query\<close> wraps whatever the execution of its query raises (it derives from
  \<^verbatim>\<open>OSError\<close>, not from \<^verbatim>\<open>sqlite3.Error\<close>).
\<close>

datatype py_exception =
    SqliteError
  | RequestException
  | OverflowError
  | AttributeError
  | TypeError
  | PandasDatabaseError

text \<open>What a function of \<^verbatim>\<open>app.py\<close> hands back: \<^verbatim>\<open>None\<close>, \<^verbatim>\<open>True\<close> or \<^verbatim>\<open>False\<close>.\<close>

datatype py_value = PyNone | PyTrue | PyFalse

text \<open>
  What the scripts show: the \<^verbatim>\<open>print\<close> calls of \<^verbatim>\<open>extract.py\<close> and the \<^verbatim>\<open>st.error\<close>
  calls of \<^verbatim>\<open>app.py\<close>, one constructor per call site.
\<close>

datatype message =
    Print_no_data_to_insert
  | Print_load_succeeded nat
  | Print_sqlite_error
  | Print_api_request_error
  | Print_unexpected_cycle_error
  | St_error_sqlite_load
  | St_error_api_request
  | St_error_unexpected_cycle
  | St_error_realtime_database
  | Print_analysis_banner
  | Print_analysis_no_data
  | Print_analysis_header
  | Print_analysis_line string "string option" nat rat
  | Print_analysis_footer
  | Print_analysis_sql_error
  | Print_analysis_unexpected_error

text \<open>
  The world the scripts act on. \<open>station_status\<close> is the committed content of the table
  in the file \<^verbatim>\<open>bordeaux_bikes.db\<close>, in rowid order, \<open>None\<close> while the table has not been
  created; \<open>uncommitted\<close> are the rows inserted by the open transaction;
  \<open>open_connections\<close> counts the connections opened and not yet closed; \<open>now_calls\<close>
  counts the calls of \<^verbatim>\<open>datetime.now()\<close> made by an ingestion cycle; \<open>shown\<close> collects
  what has been printed or shown, oldest first.
\<close>

record world =
  station_status :: "row list option"
  uncommitted :: "row list"
  open_connections :: nat
  now_calls :: nat
  shown :: "message list"

text \<open>
  The storage faults a call can be run under: which call of the \<^verbatim>\<open>sqlite3\<close> module raises
  a \<^verbatim>\<open>sqlite3.Error\<close>. \<open>InsertFails k\<close> is a fault at the row of index \<open>k\<close> of the batch
  handed to \<^verbatim>\<open>executemany\<close>.
\<close>

datatype storage_fault =
    NoFault
  | ConnectFails
  | CreateTableFails
  | InsertFails nat
  | CommitFails

section \<open>The sqlite3 calls\<close>

definition in_int64 :: "int \<Rightarrow> bool" where
  "in_int64 i \<longleftrightarrow> - (2 ^ 63) \<le> i \<and> i < 2 ^ 63"

text \<open>
  Binding a Python integer outside the 64-bit range raises \<^verbatim>\<open>OverflowError\<close>
  ("Python int too large to convert to SQLite INTEGER"); every other value of the
  typed fields binds.
\<close>

definition bindable :: "row \<Rightarrow> bool" where
  "bindable r \<longleftrightarrow>
     (case num_bikes_available r of None \<Rightarrow> True | Some b \<Rightarrow> in_int64 b) \<and>
     (case num_docks_available r of None \<Rightarrow> True | Some d \<Rightarrow> in_int64 d)"

definition table_rows :: "world \<Rightarrow> row list" where
  "table_rows w = (case station_status w of None \<Rightarrow> [] | Some rs \<Rightarrow> rs)"

definition print_message :: "message \<Rightarrow> world \<Rightarrow> world" where
  "print_message m w = w\<lparr>shown := shown w @ [m]\<rparr>"

text \<open>\<^verbatim>\<open>sqlite3.connect(DB_NAME)\<close>: a new connection has no transaction open.\<close>

definition sqlite3_connect :: "storage_fault \<Rightarrow> world \<Rightarrow> py_exception option \<times> world" where
  "sqlite3_connect f w =
     (if f = ConnectFails then (Some SqliteError, w)
      else (None, w\<lparr>uncommitted := [], open_connections := Suc (open_connections w)\<rparr>))"

text \<open>
  \<^verbatim>\<open>cursor.execute(SQL_CREATE_TABLE)\<close>: \<^verbatim>\<open>CREATE TABLE IF NOT EXISTS\<close> creates the empty table
  when there is none and leaves an existing one alone. The Python binding opens its
  implicit transaction before an \<^verbatim>\<open>INSERT\<close> only, so the creation is committed at once.
\<close>

definition execute_create_table :: "storage_fault \<Rightarrow> world \<Rightarrow> py_exception option \<times> world" where
  "execute_create_table f w =
     (if f = CreateTableFails then (Some SqliteError, w)
      else (None, w\<lparr>station_status := Some (table_rows w)\<rparr>))"

text \<open>
  \<^verbatim>\<open>cursor.executemany(SQL_INSERT, rows_to_insert)\<close>: the rows are bound and inserted one
  after the other inside one transaction; the first row that does not bind, or the
  fault, stops the loop with the earlier rows still uncommitted.
\<close>

fun executemany_insert ::
  "storage_fault \<Rightarrow> nat \<Rightarrow> row list \<Rightarrow> world \<Rightarrow> py_exception option \<times> world" where
  "executemany_insert f i [] w = (None, w)"
| "executemany_insert f i (r # rs) w =
     (if \<not> bindable r then (Some OverflowError, w)
      else if f = InsertFails i then (Some SqliteError, w)
      else executemany_insert f (Suc i) rs (w\<lparr>uncommitted := uncommitted w @ [r]\<rparr>))"

text \<open>\<^verbatim>\<open>conn.commit()\<close>, \<^verbatim>\<open>conn.rollback()\<close> and \<^verbatim>\<open>conn.close()\<close>; closing a connection
  discards what its transaction has not committed.\<close>

definition conn_commit :: "storage_fault \<Rightarrow> world \<Rightarrow> py_exception option \<times> world" where
  "conn_commit f w =
     (if f = CommitFails then (Some SqliteError, w)
      else (None, w\<lparr>station_status := Some (table_rows w @ uncommitted w), uncommitted := []\<rparr>))"

definition conn_rollback :: "world \<Rightarrow> world" where
  "conn_rollback w = w\<lparr>uncommitted := []\<rparr>"

definition conn_close :: "world \<Rightarrow> world" where
  "conn_close w = w\<lparr>uncommitted := [], open_connections := open_connections w - 1\<rparr>"

section \<open>The SQL of the two scripts\<close>

subsection \<open>Scalar operators\<close>

text \<open>
  SQLite's operators give \<^verbatim>\<open>NULL\<close> when an operand is \<^verbatim>\<open>NULL\<close>, and a division by zero
  gives \<^verbatim>\<open>NULL\<close> rather than an error. \<open>sql_add\<close> is the \<^verbatim>\<open>+\<close> of two \<^verbatim>\<open>INTEGER\<close>
  columns (a sum that leaves the 64-bit range is continued by SQLite as a \<^verbatim>\<open>REAL\<close>; the
  exact sum stands for it here), \<open>sql_divide\<close> the \<^verbatim>\<open>/\<close> of a \<^verbatim>\<open>REAL\<close> by an
  \<^verbatim>\<open>INTEGER\<close>, \<open>sql_round\<close> the function \<^verbatim>\<open>ROUND(X, Y)\<close>, which rounds half away from zero.
\<close>

definition sql_cast_real :: "int option \<Rightarrow> rat option" where
  "sql_cast_real v = (case v of None \<Rightarrow> None | Some i \<Rightarrow> Some (of_int i))"

definition sql_add :: "int option \<Rightarrow> int option \<Rightarrow> int option" where
  "sql_add a b =
     (case a of None \<Rightarrow> None
      | Some x \<Rightarrow> (case b of None \<Rightarrow> None | Some y \<Rightarrow> Some (x + y)))"

definition sql_divide :: "rat option \<Rightarrow> int option \<Rightarrow> rat option" where
  "sql_divide a b =
     (case a of None \<Rightarrow> None
      | Some x \<Rightarrow>
          (case b of None \<Rightarrow> None
           | Some y \<Rightarrow> if y = 0 then None else Some (x / of_int y)))"

definition sql_times :: "rat option \<Rightarrow> rat \<Rightarrow> rat option" where
  "sql_times a c = (case a of None \<Rightarrow> None | Some x \<Rightarrow> Some (x * c))"

definition round_half_away :: "rat \<Rightarrow> int" where
  "round_half_away q = (if 0 \<le> q then \<lfloor>q + 1 / 2\<rfloor> else - \<lfloor>- q + 1 / 2\<rfloor>)"

definition sql_round :: "rat option \<Rightarrow> nat \<Rightarrow> rat option" where
  "sql_round a digits =
     (case a of None \<Rightarrow> None
      | Some x \<Rightarrow> Some (of_int (round_half_away (x * 10 ^ digits)) / 10 ^ digits))"

text \<open>
  The comparison \<^verbatim>\<open>=\<close> of a \<^verbatim>\<open>WHERE\<close> clause: \<^verbatim>\<open>NULL\<close> when an operand is \<^verbatim>\<open>NULL\<close>, and a
  row is kept only when the comparison is true. \<^verbatim>\<open>TEXT\<close> is compared byte by byte
  (the \<^verbatim>\<open>BINARY\<close> collation), which is the order of \<open>string\<close> here.
\<close>

definition sql_equal :: "string option \<Rightarrow> string option \<Rightarrow> bool option" where
  "sql_equal a b =
     (case a of None \<Rightarrow> None
      | Some x \<Rightarrow> (case b of None \<Rightarrow> None | Some y \<Rightarrow> Some (x = y)))"

subsection \<open>Aggregates\<close>

text \<open>
  Each aggregate is a step over the rows of the group, in rowid order, and a final
  value, as SQLite runs them. \<^verbatim>\<open>SUM\<close> keeps a 64-bit integer sum and no value before the
  first non-\<^verbatim>\<open>NULL\<close> input; a step that leaves the 64-bit range makes the query fail with
  "integer overflow". \<^verbatim>\<open>AVG\<close> keeps a \<^verbatim>\<open>REAL\<close> sum and the count of the non-\<^verbatim>\<open>NULL\<close>
  inputs. \<^verbatim>\<open>MAX\<close> keeps the largest input so far. \<^verbatim>\<open>COUNT(*)\<close> counts the rows.
\<close>

datatype sql_error = Integer_overflow | No_such_table

fun sum_step :: "int option \<Rightarrow> int option list \<Rightarrow> sql_error + int option" where
  "sum_step acc [] = Inr acc"
| "sum_step acc (None # vs) = sum_step acc vs"
| "sum_step acc (Some v # vs) =
     (let s = (case acc of None \<Rightarrow> v | Some a \<Rightarrow> a + v)
      in if in_int64 s then sum_step (Some s) vs else Inl Integer_overflow)"

definition sql_sum :: "int option list \<Rightarrow> sql_error + int option" where
  "sql_sum vs = sum_step None vs"

fun avg_step :: "rat \<times> nat \<Rightarrow> rat option list \<Rightarrow> rat \<times> nat" where
  "avg_step acc [] = acc"
| "avg_step acc (None # vs) = avg_step acc vs"
| "avg_step (s, n) (Some v # vs) = avg_step (s + v, Suc n) vs"

definition sql_avg :: "rat option list \<Rightarrow> rat option" where
  "sql_avg vs = (case avg_step (0, 0) vs of (s, n) \<Rightarrow> if n = 0 then None else Some (s / of_nat n))"

fun max_step :: "string option \<Rightarrow> string list \<Rightarrow> string option" where
  "max_step acc [] = acc"
| "max_step None (v # vs) = max_step (Some v) vs"
| "max_step (Some a) (v # vs) = max_step (Some (if a < v then v else a)) vs"

definition sql_max :: "string list \<Rightarrow> string option" where
  "sql_max vs = max_step None vs"

definition sql_count_star :: "row list \<Rightarrow> nat" where
  "sql_count_star g = length g"

subsection \<open>The latest-snapshot query of \<^verbatim>\<open>get_station_data_for_display\<close>\<close>

text \<open>
  \<^verbatim>\<open>SELECT * FROM station_status WHERE snapshot_time = (SELECT MAX(snapshot_time) FROM
  station_status)\<close>, the rows in rowid order. On a database where the table was never
  created the statement fails with "no such table".
\<close>

definition latest_snapshot_query :: "row list option \<Rightarrow> sql_error + row list" where
  "latest_snapshot_query table =
     (case table of
        None \<Rightarrow> Inl No_such_table
      | Some rows \<Rightarrow>
          (let newest = sql_max (map snapshot_time rows)
           in Inr (filter (\<lambda>r. sql_equal (Some (snapshot_time r)) newest = Some True) rows)))"

subsection \<open>\<^verbatim>\<open>SQL_RANKING_QUERY\<close>\<close>

text \<open>
  \<^verbatim>\<open>GROUP BY station_id, name\<close>: one group for each pair of values, \<^verbatim>\<open>NULL\<close> being a value
  of its own; SQLite forms the groups by sorting on the pair, so they come out in
  ascending order of the pair, \<^verbatim>\<open>NULL\<close> first.
\<close>

definition group_key :: "row \<Rightarrow> string option \<times> string option" where
  "group_key r = (station_id r, name r)"

definition group_by_station_id_name ::
  "row list \<Rightarrow> ((string option \<times> string option) \<times> row list) list" where
  "group_by_station_id_name rows =
     map (\<lambda>k. (k, filter (\<lambda>r. group_key r = k) rows)) (sort (remdups (map group_key rows)))"

text \<open>
  The expression under the second \<^verbatim>\<open>AVG\<close>:
  \<^verbatim>\<open>CAST(num_bikes_available AS REAL) / (num_bikes_available + num_docks_available)\<close>.
\<close>

definition utilization_ratio :: "row \<Rightarrow> rat option" where
  "utilization_ratio r =
     sql_divide (sql_cast_real (num_bikes_available r))
       (sql_add (num_bikes_available r) (num_docks_available r))"

text \<open>The select list, evaluated on one group.\<close>

definition select_ranking_entry ::
  "(string option \<times> string option) \<times> row list \<Rightarrow> sql_error + ranking_entry" where
  "select_ranking_entry kg =
     (case kg of (k, g) \<Rightarrow>
        (case sql_sum (map num_bikes_available g) of
           Inl e \<Rightarrow> Inl e
         | Inr bikes_sum \<Rightarrow>
             Inr \<lparr>entry_station_id = fst k,
                  entry_name = snd k,
                  snapshots_count = sql_count_star g,
                  total_bikes = bikes_sum,
                  avg_bikes = sql_avg (map (\<lambda>r. sql_cast_real (num_bikes_available r)) g),
                  avg_utilization_percent =
                    sql_round (sql_times (sql_avg (map utilization_ratio g)) 100) 2\<rparr>))"

fun select_all :: "((string option \<times> string option) \<times> row list) list \<Rightarrow> sql_error + ranking_entry list" where
  "select_all [] = Inr []"
| "select_all (kg # kgs) =
     (case select_ranking_entry kg of
        Inl e \<Rightarrow> Inl e
      | Inr entry \<Rightarrow> (case select_all kgs of Inl e \<Rightarrow> Inl e | Inr entries \<Rightarrow> Inr (entry # entries)))"

text \<open>
  \<^verbatim>\<open>ORDER BY avg_bikes DESC\<close>: \<^verbatim>\<open>NULL\<close> counts as smaller than every number, so it comes
  last (the order of \<open>rat option\<close>). SQL leaves the order of entries with equal
  \<open>avg_bikes\<close> open; here they keep the order in which the groups came out.
\<close>

fun insert_desc :: "ranking_entry \<Rightarrow> ranking_entry list \<Rightarrow> ranking_entry list" where
  "insert_desc e [] = [e]"
| "insert_desc e (x # xs) =
     (if avg_bikes e < avg_bikes x then x # insert_desc e xs else e # x # xs)"

definition order_by_avg_bikes_desc :: "ranking_entry list \<Rightarrow> ranking_entry list" where
  "order_by_avg_bikes_desc entries = foldr insert_desc entries []"

definition SQL_RANKING_QUERY :: "row list option \<Rightarrow> sql_error + ranking_entry list" where
  "SQL_RANKING_QUERY table =
     (case table of
        None \<Rightarrow> Inl No_such_table
      | Some rows \<Rightarrow>
          (case select_all (group_by_station_id_name rows) of
             Inl e \<Rightarrow> Inl e
           | Inr entries \<Rightarrow> Inr (take 10 (order_by_avg_bikes_desc entries))))"

subsection \<open>The select list with the arithmetic of \<^verbatim>\<open>REAL\<close> left open\<close>







section \<open>Loading: \<^verbatim>\<open>load_data_to_sqlite\<close>\<close>

text \<open>The tuple built for one station inside the loop (the transformation step).\<close>

definition station_row :: "string \<Rightarrow> station \<Rightarrow> row" where
  "station_row current_time_str s =
     \<lparr>snapshot_time = current_time_str,
      station_id = get_id s,
      name = get_name s,
      num_bikes_available = get_free_bikes s,
      num_docks_available = get_empty_slots s,
      latitude = get_latitude s,
      longitude = get_longitude s\<rparr>"

text \<open>
  The body of the \<^verbatim>\<open>try\<close> block after the connection is open: create the table, build
  \<^verbatim>\<open>rows_to_insert\<close>, insert them, commit. It gives the exception that left the block, if
  any, and the world at that point.
\<close>

definition load_try_body ::
  "storage_fault \<Rightarrow> station list \<Rightarrow> string \<Rightarrow> world \<Rightarrow> py_exception option \<times> world" where
  "load_try_body f stations_data current_time_str w =
     (case execute_create_table f w of
        (Some e, w1) \<Rightarrow> (Some e, w1)
      | (None, w1) \<Rightarrow>
          (let rows_to_insert = map (station_row current_time_str) stations_data in
           case executemany_insert f 0 rows_to_insert w1 of
             (Some e, w2) \<Rightarrow> (Some e, w2)
           | (None, w2) \<Rightarrow> conn_commit f w2))"

text \<open>
  \<^verbatim>\<open>app.py\<close>, lines 49 to 85. An empty \<^verbatim>\<open>stations_data\<close> returns at once with a bare
  \<^verbatim>\<open>return\<close> (the value \<^verbatim>\<open>None\<close>). A \<^verbatim>\<open>sqlite3.Error\<close> is shown, rolled back when a
  connection exists, and answered with \<^verbatim>\<open>False\<close>; any other exception leaves the function
  (\<open>Inl\<close>); the \<^verbatim>\<open>finally\<close> clause closes the connection when there is one.
\<close>

definition app_load_data_to_sqlite ::
  "storage_fault \<Rightarrow> station list \<Rightarrow> string \<Rightarrow> world \<Rightarrow> (py_exception + py_value) \<times> world" where
  "app_load_data_to_sqlite f stations_data current_time_str w =
     (if stations_data = [] then (Inr PyNone, w)
      else
        case sqlite3_connect f w of
          (Some e, w1) \<Rightarrow> (Inr PyFalse, print_message St_error_sqlite_load w1)
        | (None, w1) \<Rightarrow>
            (case load_try_body f stations_data current_time_str w1 of
               (None, w2) \<Rightarrow> (Inr PyTrue, conn_close w2)
             | (Some e, w2) \<Rightarrow>
                 if e = SqliteError
                 then (Inr PyFalse, conn_close (conn_rollback (print_message St_error_sqlite_load w2)))
                 else (Inl e, conn_close w2)))"

text \<open>
  \<^verbatim>\<open>extract.py\<close>, lines 39 to 73: the same steps, with the outcome printed; the function
  has no \<^verbatim>\<open>return\<close> with a value, so it hands back \<^verbatim>\<open>None\<close> whenever it returns.
\<close>

definition extract_load_data_to_sqlite ::
  "storage_fault \<Rightarrow> station list \<Rightarrow> string \<Rightarrow> world \<Rightarrow> (py_exception + py_value) \<times> world" where
  "extract_load_data_to_sqlite f stations_data current_time_str w =
     (if stations_data = [] then (Inr PyNone, print_message Print_no_data_to_insert w)
      else
        case sqlite3_connect f w of
          (Some e, w1) \<Rightarrow> (Inr PyNone, print_message Print_sqlite_error w1)
        | (None, w1) \<Rightarrow>
            (case load_try_body f stations_data current_time_str w1 of
               (None, w2) \<Rightarrow>
                 (Inr PyNone,
                  conn_close (print_message (Print_load_succeeded (length stations_data)) w2))
             | (Some e, w2) \<Rightarrow>
                 if e = SqliteError
                 then (Inr PyNone, conn_close (conn_rollback (print_message Print_sqlite_error w2)))
                 else (Inl e, conn_close w2)))"

section \<open>The ingestion cycle: \<^verbatim>\<open>run_ingestion_cycle\<close>\<close>

text \<open>
  What \<^verbatim>\<open>requests.get(API_URL)\<close> can give: an exception of the transport (connection
  refused, DNS, timeout, too many redirects), or a response with a status code and a
  body. The body is described as far as the cycle looks into it: whether it decodes as
  JSON, whether the decoded value is an object, what its key \<^verbatim>\<open>network\<close> holds and what
  the key \<^verbatim>\<open>stations\<close> of that holds.
\<close>

datatype stations_field = Stations_absent | Stations_null | Stations_list "station list"

datatype network_field = Network_absent | Network_not_object | Network_object stations_field

datatype body = Not_json | Json_not_object | Json_object network_field

datatype http_reply = Get_raises | Response nat body

text \<open>
  \<^verbatim>\<open>response.raise_for_status()\<close> raises \<^verbatim>\<open>HTTPError\<close> for the status codes 400 to 599
  (the comment in the source: "4xx/5xx") and for no other.
\<close>

definition raise_for_status :: "nat \<Rightarrow> py_exception option" where
  "raise_for_status status =
     (if 400 \<le> status \<and> status < 600 then Some RequestException else None)"

text \<open>
  \<^verbatim>\<open>data = response.json()\<close> followed by
  \<^verbatim>\<open>data.get('network', {}).get('stations', [])\<close>. A body that does not decode raises
  the \<^verbatim>\<open>JSONDecodeError\<close> of \<^verbatim>\<open>requests\<close>, a \<^verbatim>\<open>RequestException\<close>; a value without a
  method \<^verbatim>\<open>get\<close> raises \<^verbatim>\<open>AttributeError\<close>; an absent key gives the default. A
  \<^verbatim>\<open>stations\<close> that is \<^verbatim>\<open>null\<close> is as false as the empty list for the test
  \<^verbatim>\<open>if not stations_data\<close> and stands as the empty list.
\<close>

definition extract_stations :: "body \<Rightarrow> py_exception + station list" where
  "extract_stations b =
     (case b of
        Not_json \<Rightarrow> Inl RequestException
      | Json_not_object \<Rightarrow> Inl AttributeError
      | Json_object Network_absent \<Rightarrow> Inr []
      | Json_object Network_not_object \<Rightarrow> Inl AttributeError
      | Json_object (Network_object Stations_absent) \<Rightarrow> Inr []
      | Json_object (Network_object Stations_null) \<Rightarrow> Inr []
      | Json_object (Network_object (Stations_list ss)) \<Rightarrow> Inr ss)"

text \<open>
  \<^verbatim>\<open>datetime.now().isoformat()\<close>: the clock is a sequence of readings, and each call
  takes the next one.
\<close>

definition datetime_now_isoformat :: "(nat \<Rightarrow> string) \<Rightarrow> world \<Rightarrow> string \<times> world" where
  "datetime_now_isoformat clock w = (clock (now_calls w), w\<lparr>now_calls := Suc (now_calls w)\<rparr>)"

text \<open>The \<^verbatim>\<open>try\<close> block of \<^verbatim>\<open>run_ingestion_cycle\<close> in \<^verbatim>\<open>app.py\<close>, lines 91 to 101.\<close>

definition app_cycle_try_body ::
  "http_reply \<Rightarrow> (nat \<Rightarrow> string) \<Rightarrow> storage_fault \<Rightarrow> world \<Rightarrow> (py_exception + py_value) \<times> world" where
  "app_cycle_try_body reply clock f w =
     (case reply of
        Get_raises \<Rightarrow> (Inl RequestException, w)
      | Response status b \<Rightarrow>
          (case raise_for_status status of
             Some e \<Rightarrow> (Inl e, w)
           | None \<Rightarrow>
               (case extract_stations b of
                  Inl e \<Rightarrow> (Inl e, w)
                | Inr stations_data \<Rightarrow>
                    (case datetime_now_isoformat clock w of
                       (current_time_str, w1) \<Rightarrow>
                         app_load_data_to_sqlite f stations_data current_time_str w1))))"

text \<open>
  \<^verbatim>\<open>app.py\<close>, lines 87 to 108: the value of the load is handed on; a
  \<^verbatim>\<open>RequestException\<close> and any other \<^verbatim>\<open>Exception\<close> are shown and answered with \<^verbatim>\<open>False\<close>.
\<close>

definition app_run_ingestion_cycle ::
  "http_reply \<Rightarrow> (nat \<Rightarrow> string) \<Rightarrow> storage_fault \<Rightarrow> world \<Rightarrow> py_value \<times> world" where
  "app_run_ingestion_cycle reply clock f w =
     (case app_cycle_try_body reply clock f w of
        (Inr v, w1) \<Rightarrow> (v, w1)
      | (Inl e, w1) \<Rightarrow>
          if e = RequestException then (PyFalse, print_message St_error_api_request w1)
          else (PyFalse, print_message St_error_unexpected_cycle w1))"

text \<open>\<^verbatim>\<open>extract.py\<close>, lines 79 to 98: the same steps; every path ends without a value.\<close>

definition extract_cycle_try_body ::
  "http_reply \<Rightarrow> (nat \<Rightarrow> string) \<Rightarrow> storage_fault \<Rightarrow> world \<Rightarrow> (py_exception + py_value) \<times> world" where
  "extract_cycle_try_body reply clock f w =
     (case reply of
        Get_raises \<Rightarrow> (Inl RequestException, w)
      | Response status b \<Rightarrow>
          (case raise_for_status status of
             Some e \<Rightarrow> (Inl e, w)
           | None \<Rightarrow>
               (case extract_stations b of
                  Inl e \<Rightarrow> (Inl e, w)
                | Inr stations_data \<Rightarrow>
                    (case datetime_now_isoformat clock w of
                       (current_time_str, w1) \<Rightarrow>
                         extract_load_data_to_sqlite f stations_data current_time_str w1))))"

definition extract_run_ingestion_cycle ::
  "http_reply \<Rightarrow> (nat \<Rightarrow> string) \<Rightarrow> storage_fault \<Rightarrow> world \<Rightarrow> py_value \<times> world" where
  "extract_run_ingestion_cycle reply clock f w =
     (case extract_cycle_try_body reply clock f w of
        (Inr v, w1) \<Rightarrow> (PyNone, w1)
      | (Inl e, w1) \<Rightarrow>
          if e = RequestException then (PyNone, print_message Print_api_request_error w1)
          else (PyNone, print_message Print_unexpected_cycle_error w1))"

section \<open>Reading: \<^verbatim>\<open>get_station_data_for_display\<close> and \<^verbatim>\<open>analyze_and_rank_stations\<close>\<close>

text \<open>
  \<^verbatim>\<open>app.py\<close>, lines 115 to 131, the body under the cache decorator. The rows of the data
  frame are the rows of the query. A failing \<^verbatim>\<open>sqlite3.connect\<close> is a \<^verbatim>\<open>sqlite3.Error\<close>:
  it is shown and answered with the empty data frame. A query that fails inside
  \<^verbatim>\<open>pd.read_sql_query\<close> comes out as the \<^verbatim>\<open>DatabaseError\<close> of pandas, which the clause
  \<^verbatim>\<open>except sqlite3.Error\<close> does not match: it leaves the function, after the \<^verbatim>\<open>finally\<close>
  clause has closed the connection.
\<close>

definition app_get_station_data_for_display ::
  "storage_fault \<Rightarrow> world \<Rightarrow> (py_exception + row list) \<times> world" where
  "app_get_station_data_for_display f w =
     (case sqlite3_connect f w of
        (Some e, w1) \<Rightarrow> (Inr [], print_message St_error_realtime_database w1)
      | (None, w1) \<Rightarrow>
          (case latest_snapshot_query (station_status w1) of
             Inl e \<Rightarrow> (Inl PandasDatabaseError, conn_close w1)
           | Inr df \<Rightarrow> (Inr df, conn_close w1)))"



section \<open>Auxiliary notions for the statements\<close>

text \<open>
  When a fault makes \<^verbatim>\<open>load_data_to_sqlite\<close> meet a \<^verbatim>\<open>sqlite3.Error\<close> on a non-empty
  batch: a failing connection or table creation always does; a fault at row \<open>k\<close> does
  when the batch has such a row and the rows up to it bind; a failing commit does when
  every row binds (otherwise the loop has stopped before, on the \<^verbatim>\<open>OverflowError\<close>).
\<close>

definition fault_strikes :: "storage_fault \<Rightarrow> row list \<Rightarrow> bool" where
  "fault_strikes f rows \<longleftrightarrow>
     (case f of
        NoFault \<Rightarrow> False
      | ConnectFails \<Rightarrow> True
      | CreateTableFails \<Rightarrow> True
      | InsertFails k \<Rightarrow> k < length rows \<and> (\<forall>r\<in>set (take (Suc k) rows). bindable r)
      | CommitFails \<Rightarrow> (\<forall>r\<in>set rows. bindable r))"

text \<open>The database file before anything has run, and sample data.\<close>

definition fresh_database :: world where
  "fresh_database = \<lparr>station_status = None, uncommitted = [], open_connections = 0, now_calls = 0, shown = []\<rparr>"

definition sample_station :: station where
  "sample_station =
     \<lparr>get_id = Some ''S1'', get_name = Some ''Gambetta'', get_free_bikes = Some 5,
      get_empty_slots = Some 5, get_latitude = Some (4484 / 100), get_longitude = Some (- 58 / 100)\<rparr>"

definition one_cycle_database :: world where
  "one_cycle_database =
     \<lparr>station_status = Some [station_row ''2024-05-01T08:00:00'' sample_station],
      uncommitted = [], open_connections = 0, now_calls = 1, shown = []\<rparr>"

definition second_station :: station where
  "second_station =
     \<lparr>get_id = Some ''S2'', get_name = Some ''Quinconces'', get_free_bikes = Some 0,
      get_empty_slots = Some 0, get_latitude = None, get_longitude = None\<rparr>"

text \<open>
  A failed fetch, as the cycle sees it: \<^verbatim>\<open>requests.get\<close> raised, or the status of the
  response is one of those \<^verbatim>\<open>raise_for_status\<close> raises for.
\<close>

definition fetch_fails :: "http_reply \<Rightarrow> bool" where
  "fetch_fails reply =
     (case reply of
        Get_raises \<Rightarrow> True
      | Response status b \<Rightarrow> 400 \<le> status \<and> status < 600)"

definition sample_clock :: "nat \<Rightarrow> string" where
  "sample_clock n = (if n = 0 then ''2024-05-01T08:00:00'' else ''2024-05-01T08:05:00'')"

definition sample_body :: body where
  "sample_body = Json_object (Network_object (Stations_list [sample_station, second_station]))"







text \<open>Eleven stations, the station number \<open>i\<close> with \<open>i\<close> bikes and 10 docks.\<close>

definition numbered_station :: "string \<Rightarrow> int \<Rightarrow> station" where
  "numbered_station i b =
     \<lparr>get_id = Some i, get_name = Some ''Station'', get_free_bikes = Some b,
      get_empty_slots = Some 10, get_latitude = None, get_longitude = None\<rparr>"

definition eleven_stations :: "station list" where
  "eleven_stations =
     [numbered_station ''01'' 1, numbered_station ''02'' 2, numbered_station ''03'' 3,
      numbered_station ''04'' 4, numbered_station ''05'' 5, numbered_station ''06'' 6,
      numbered_station ''07'' 7, numbered_station ''08'' 8, numbered_station ''09'' 9,
      numbered_station ''10'' 10, numbered_station ''11'' 11]"

section \<open>Lemmas on the sqlite3 calls and on loading\<close>

lemma executemany_frame:
  "executemany_insert f i rs w = (x, w') \<Longrightarrow>
     station_status w' = station_status w \<and> open_connections w' = open_connections w \<and>
     now_calls w' = now_calls w \<and> shown w' = shown w"
  by (induction f i rs w rule: executemany_insert.induct) (auto split: if_splits)

lemma executemany_None:
  "executemany_insert f i rs w = (None, w') \<Longrightarrow> w' = w\<lparr>uncommitted := uncommitted w @ rs\<rparr>"
  by (induction f i rs w arbitrary: w' rule: executemany_insert.induct) (auto split: if_splits)

lemma executemany_ok:
  "\<forall>r\<in>set rs. bindable r \<Longrightarrow> \<forall>j. f = InsertFails j \<longrightarrow> j < i \<or> i + length rs \<le> j \<Longrightarrow>
     executemany_insert f i rs w = (None, w\<lparr>uncommitted := uncommitted w @ rs\<rparr>)"
proof (induction f i rs w rule: executemany_insert.induct)
  case (1 f i w)
  then show ?case by simp
next
  case (2 f i r rs w)
  have a: "f \<noteq> InsertFails i"
    using "2.prems"(2) by auto
  have b: "\<forall>j. f = InsertFails j \<longrightarrow> j < Suc i \<or> Suc i + length rs \<le> j"
    using "2.prems"(2) by auto
  show ?case using 2 a b by simp
qed

lemma executemany_fault:
  "i \<le> k \<Longrightarrow> k < i + length rs \<Longrightarrow> \<forall>r\<in>set (take (Suc (k - i)) rs). bindable r \<Longrightarrow>
     fst (executemany_insert (InsertFails k) i rs w) = Some SqliteError"
proof (induction "InsertFails k" i rs w rule: executemany_insert.induct)
  case (1 i w)
  then show ?case by simp
next
  case (2 i r rs w)
  show ?case
  proof (cases "k = i")
    case True
    then show ?thesis using "2.prems" by simp
  next
    case False
    then have "Suc (k - i) = Suc (Suc (k - Suc i))" using "2.prems"(1) by simp
    then have "\<forall>r\<in>set (take (Suc (k - Suc i)) rs). bindable r" and "bindable r"
      using "2.prems"(3) by simp_all
    then show ?thesis using 2 False by simp
  qed
qed

lemma load_try_body_frame:
  assumes "load_try_body f ss t w = (x, w')"
  shows "open_connections w' = open_connections w \<and> now_calls w' = now_calls w \<and>
         shown w' = shown w \<and>
         (if x = None then table_rows w' = table_rows w @ uncommitted w @ map (station_row t) ss
          else table_rows w' = table_rows w)"
proof (cases "f = CreateTableFails")
  case True
  then show ?thesis using assms by (auto simp: load_try_body_def execute_create_table_def)
next
  case False
  define w1 where "w1 = w\<lparr>station_status := Some (table_rows w)\<rparr>"
  obtain y w2 where e: "executemany_insert f 0 (map (station_row t) ss) w1 = (y, w2)"
    by (cases "executemany_insert f 0 (map (station_row t) ss) w1")
  have fr: "station_status w2 = station_status w1 \<and> open_connections w2 = open_connections w1 \<and>
     now_calls w2 = now_calls w1 \<and> shown w2 = shown w1"
    using executemany_frame[OF e] .
  show ?thesis
  proof (cases y)
    case (Some ex)
    then have "x = Some ex" "w' = w2"
      using assms e False by (auto simp: load_try_body_def execute_create_table_def w1_def)
    then show ?thesis using fr by (simp add: w1_def table_rows_def)
  next
    case None
    then have w2: "w2 = w1\<lparr>uncommitted := uncommitted w1 @ map (station_row t) ss\<rparr>"
      using executemany_None e by blast
    have c: "(x, w') = conn_commit f w2"
      using assms e False None by (simp add: load_try_body_def execute_create_table_def w1_def)
    show ?thesis
    proof (cases "f = CommitFails")
      case True
      then show ?thesis using c w2 by (simp add: conn_commit_def w1_def table_rows_def)
    next
      case False
      then show ?thesis using c w2 by (simp add: conn_commit_def w1_def table_rows_def)
    qed
  qed
qed

lemma load_try_body_sqlite_error:
  assumes "fault_strikes f (map (station_row t) ss)" and "f \<noteq> ConnectFails"
  shows "fst (load_try_body f ss t w) = Some SqliteError"
proof (cases f)
  case NoFault
  then show ?thesis using assms by (simp add: fault_strikes_def)
next
  case ConnectFails
  then show ?thesis using assms by simp
next
  case CreateTableFails
  then show ?thesis by (simp add: load_try_body_def execute_create_table_def)
next
  case (InsertFails k)
  then have "fst (executemany_insert (InsertFails k) 0 (map (station_row t) ss) (w\<lparr>station_status := Some (table_rows w)\<rparr>)) = Some SqliteError"
    using assms by (intro executemany_fault) (simp_all add: fault_strikes_def)
  then show ?thesis using InsertFails
    by (auto simp: load_try_body_def execute_create_table_def split: prod.splits option.splits)
next
  case CommitFails
  then have "executemany_insert f 0 (map (station_row t) ss) (w\<lparr>station_status := Some (table_rows w)\<rparr>)
     = (None, (w\<lparr>station_status := Some (table_rows w)\<rparr>)\<lparr>uncommitted := uncommitted (w\<lparr>station_status := Some (table_rows w)\<rparr>) @ map (station_row t) ss\<rparr>)"
    using assms by (intro executemany_ok) (simp_all add: fault_strikes_def)
  then show ?thesis using CommitFails
    by (simp add: load_try_body_def execute_create_table_def conn_commit_def)
qed

lemma load_try_body_ok:
  assumes "\<forall>s\<in>set ss. bindable (station_row t s)"
  shows "fst (load_try_body NoFault ss t w) = None"
proof -
  have "executemany_insert NoFault 0 (map (station_row t) ss) (w\<lparr>station_status := Some (table_rows w)\<rparr>)
     = (None, (w\<lparr>station_status := Some (table_rows w)\<rparr>)\<lparr>uncommitted := uncommitted (w\<lparr>station_status := Some (table_rows w)\<rparr>) @ map (station_row t) ss\<rparr>)"
    using assms by (intro executemany_ok) simp_all
  then show ?thesis
    by (simp add: load_try_body_def execute_create_table_def conn_commit_def)
qed

text \<open>What both loaders leave behind, whatever the fault and the batch.\<close>

lemma app_load_effect:
  assumes "app_load_data_to_sqlite f ss t w = (res, w')"
  shows "open_connections w' = open_connections w \<and> now_calls w' = now_calls w \<and>
         (if res = Inr PyTrue then ss \<noteq> [] \<and> table_rows w' = table_rows w @ map (station_row t) ss
          else table_rows w' = table_rows w)"
proof (cases "ss = []")
  case True
  then show ?thesis using assms by (auto simp: app_load_data_to_sqlite_def)
next
  case False
  show ?thesis
  proof (cases "f = ConnectFails")
    case True
    then show ?thesis using assms False
      by (auto simp: app_load_data_to_sqlite_def sqlite3_connect_def print_message_def table_rows_def)
  next
    case nc: False
    define w1 where "w1 = w\<lparr>uncommitted := [], open_connections := Suc (open_connections w)\<rparr>"
    obtain x w2 where b: "load_try_body f ss t w1 = (x, w2)"
      by (cases "load_try_body f ss t w1")
    have fr: "open_connections w2 = open_connections w1 \<and> now_calls w2 = now_calls w1 \<and>
         shown w2 = shown w1 \<and>
         (if x = None then table_rows w2 = table_rows w1 @ uncommitted w1 @ map (station_row t) ss
          else table_rows w2 = table_rows w1)"
      using load_try_body_frame [OF b] .
    have r: "(res, w') =
         (case x of None \<Rightarrow> (Inr PyTrue, conn_close w2)
          | Some e \<Rightarrow> if e = SqliteError
              then (Inr PyFalse, conn_close (conn_rollback (print_message St_error_sqlite_load w2)))
              else (Inl e, conn_close w2))"
      using assms False nc b
      by (simp add: app_load_data_to_sqlite_def sqlite3_connect_def w1_def)
    show ?thesis
    proof (cases x)
      case None
      then show ?thesis using r fr False
        by (simp add: conn_close_def w1_def table_rows_def)
    next
      case (Some e)
      then show ?thesis using r fr
        by (auto simp: conn_close_def conn_rollback_def print_message_def w1_def table_rows_def
            split: if_splits)
    qed
  qed
qed

lemma extract_load_effect:
  assumes "extract_load_data_to_sqlite f ss t w = (res, w')"
  shows "open_connections w' = open_connections w \<and> now_calls w' = now_calls w \<and>
         (table_rows w' = table_rows w \<or> ss \<noteq> [] \<and> table_rows w' = table_rows w @ map (station_row t) ss)"
proof (cases "ss = []")
  case True
  then show ?thesis using assms
    by (auto simp: extract_load_data_to_sqlite_def print_message_def table_rows_def)
next
  case False
  show ?thesis
  proof (cases "f = ConnectFails")
    case True
    then show ?thesis using assms False
      by (auto simp: extract_load_data_to_sqlite_def sqlite3_connect_def print_message_def table_rows_def)
  next
    case nc: False
    define w1 where "w1 = w\<lparr>uncommitted := [], open_connections := Suc (open_connections w)\<rparr>"
    obtain x w2 where b: "load_try_body f ss t w1 = (x, w2)"
      by (cases "load_try_body f ss t w1")
    have fr: "open_connections w2 = open_connections w1 \<and> now_calls w2 = now_calls w1 \<and>
         shown w2 = shown w1 \<and>
         (if x = None then table_rows w2 = table_rows w1 @ uncommitted w1 @ map (station_row t) ss
          else table_rows w2 = table_rows w1)"
      using load_try_body_frame [OF b] .
    have r: "(res, w') =
         (case x of None \<Rightarrow> (Inr PyNone, conn_close (print_message (Print_load_succeeded (length ss)) w2))
          | Some e \<Rightarrow> if e = SqliteError
              then (Inr PyNone, conn_close (conn_rollback (print_message Print_sqlite_error w2)))
              else (Inl e, conn_close w2))"
      using assms False nc b
      by (simp add: extract_load_data_to_sqlite_def sqlite3_connect_def w1_def)
    show ?thesis
    proof (cases x)
      case None
      then show ?thesis using r fr False
        by (simp add: conn_close_def print_message_def w1_def table_rows_def)
    next
      case (Some e)
      then show ?thesis using r fr
        by (auto simp: conn_close_def conn_rollback_def print_message_def w1_def table_rows_def
            split: if_splits)
    qed
  qed
qed

lemma app_load_storage_error:
  assumes "ss \<noteq> []" and "fault_strikes f (map (station_row t) ss)"
  shows "fst (app_load_data_to_sqlite f ss t w) = Inr PyFalse \<and>
         shown (snd (app_load_data_to_sqlite f ss t w)) = shown w @ [St_error_sqlite_load] \<and>
         uncommitted (snd (app_load_data_to_sqlite f ss t w)) = (if f = ConnectFails then uncommitted w else [])"
proof (cases "f = ConnectFails")
  case True
  then show ?thesis using assms(1)
    by (simp add: app_load_data_to_sqlite_def sqlite3_connect_def print_message_def)
next
  case False
  define w1 where "w1 = w\<lparr>uncommitted := [], open_connections := Suc (open_connections w)\<rparr>"
  obtain x w2 where b: "load_try_body f ss t w1 = (x, w2)"
    by (cases "load_try_body f ss t w1")
  have x: "x = Some SqliteError"
    using load_try_body_sqlite_error [OF assms(2) False, of w1] b by simp
  have fr: "shown w2 = shown w1" using load_try_body_frame [OF b] by simp
  show ?thesis using assms(1) False b x fr
    by (simp add: app_load_data_to_sqlite_def sqlite3_connect_def w1_def conn_close_def
        conn_rollback_def print_message_def)
qed

lemma extract_load_storage_error:
  assumes "ss \<noteq> []" and "fault_strikes f (map (station_row t) ss)"
  shows "fst (extract_load_data_to_sqlite f ss t w) = Inr PyNone \<and>
         shown (snd (extract_load_data_to_sqlite f ss t w)) = shown w @ [Print_sqlite_error]"
proof (cases "f = ConnectFails")
  case True
  then show ?thesis using assms(1)
    by (simp add: extract_load_data_to_sqlite_def sqlite3_connect_def print_message_def)
next
  case False
  define w1 where "w1 = w\<lparr>uncommitted := [], open_connections := Suc (open_connections w)\<rparr>"
  obtain x w2 where b: "load_try_body f ss t w1 = (x, w2)"
    by (cases "load_try_body f ss t w1")
  have x: "x = Some SqliteError"
    using load_try_body_sqlite_error [OF assms(2) False, of w1] b by simp
  have fr: "shown w2 = shown w1" using load_try_body_frame [OF b] by simp
  show ?thesis using assms(1) False b x fr
    by (simp add: extract_load_data_to_sqlite_def sqlite3_connect_def w1_def conn_close_def
        conn_rollback_def print_message_def)
qed

section \<open>Lemmas on the latest-snapshot query\<close>

lemma max_step_Some: "max_step (Some a) vs = Some (fold max vs a)"
proof (induction vs arbitrary: a)
  case Nil
  then show ?case by simp
next
  case (Cons v vs)
  have "(if a < v then v else a) = max v a" by (auto simp: max_def)
  then show ?case using Cons by simp
qed

lemma sql_max_eq: "sql_max vs = (if vs = [] then None else Some (Max (set vs)))"
proof (cases vs)
  case Nil
  then show ?thesis by (simp add: sql_max_def)
next
  case (Cons v ws)
  have "sql_max (v # ws) = Some (fold max ws v)"
    by (simp add: sql_max_def max_step_Some)
  then show ?thesis using Cons Max.set_eq_fold [of v ws] by simp
qed

lemma newest_iff:
  assumes "r \<in> set rows"
  shows "snapshot_time r = Max (snapshot_time ` set rows)
           \<longleftrightarrow> (\<forall>r'\<in>set rows. snapshot_time r' \<le> snapshot_time r)"
proof
  assume e: "snapshot_time r = Max (snapshot_time ` set rows)"
  show "\<forall>r'\<in>set rows. snapshot_time r' \<le> snapshot_time r"
  proof
    fix r' assume "r' \<in> set rows"
    then have "snapshot_time r' \<le> Max (snapshot_time ` set rows)"
      by (intro Max_ge) simp_all
    then show "snapshot_time r' \<le> snapshot_time r" using e by simp
  qed
next
  assume a: "\<forall>r'\<in>set rows. snapshot_time r' \<le> snapshot_time r"
  have "Max (snapshot_time ` set rows) = snapshot_time r"
  proof (rule Max_eqI)
    show "finite (snapshot_time ` set rows)" by simp
    show "\<And>y. y \<in> snapshot_time ` set rows \<Longrightarrow> y \<le> snapshot_time r" using a by auto
    show "snapshot_time r \<in> snapshot_time ` set rows" using assms by simp
  qed
  then show "snapshot_time r = Max (snapshot_time ` set rows)" by simp
qed

lemma latest_snapshot_query_Some:
  "latest_snapshot_query (Some rows) =
     Inr (filter (\<lambda>r. \<forall>r'\<in>set rows. snapshot_time r' \<le> snapshot_time r) rows)"
proof (cases "rows = []")
  case True
  then show ?thesis by (simp add: latest_snapshot_query_def sql_max_eq)
next
  case False
  have "filter (\<lambda>r. snapshot_time r = Max (snapshot_time ` set rows)) rows
          = filter (\<lambda>r. \<forall>r'\<in>set rows. snapshot_time r' \<le> snapshot_time r) rows"
    by (rule filter_cong) (simp_all add: newest_iff)
  then show ?thesis using False
    by (simp add: latest_snapshot_query_def sql_max_eq sql_equal_def)
qed

lemma latest_after_append:
  assumes "new \<noteq> []" and "\<forall>r\<in>set new. snapshot_time r = t" and "\<forall>r\<in>set old. snapshot_time r < t"
  shows "latest_snapshot_query (Some (old @ new)) = Inr new"
proof -
  obtain n where n: "n \<in> set new" "snapshot_time n = t"
    using assms(1,2) by (cases new) auto
  have "\<And>x. x \<in> set old \<Longrightarrow> \<not> snapshot_time n \<le> snapshot_time x"
    using assms(3) n by auto
  then have "filter (\<lambda>r. \<forall>r'\<in>set (old @ new). snapshot_time r' \<le> snapshot_time r) old = []"
    using n(1) by (auto simp: filter_empty_conv)
  moreover have "filter (\<lambda>r. \<forall>r'\<in>set (old @ new). snapshot_time r' \<le> snapshot_time r) new = new"
    using assms by (auto simp: filter_id_conv) 
  ultimately show ?thesis by (simp add: latest_snapshot_query_Some)
qed

lemma app_load_ok:
  assumes "stations_data \<noteq> []" and "\<forall>s\<in>set stations_data. bindable (station_row t s)"
  shows "app_load_data_to_sqlite NoFault stations_data t w =
           (Inr PyTrue, w\<lparr>station_status := Some (table_rows w @ map (station_row t) stations_data), uncommitted := []\<rparr>)"
proof -
  let ?w1 = "w\<lparr>uncommitted := [], open_connections := Suc (open_connections w)\<rparr>"
  let ?w2 = "?w1\<lparr>station_status := Some (table_rows ?w1)\<rparr>"
  have "executemany_insert NoFault 0 (map (station_row t) stations_data) ?w2
     = (None, ?w2\<lparr>uncommitted := uncommitted ?w2 @ map (station_row t) stations_data\<rparr>)"
    using assms by (intro executemany_ok) simp_all
  then show ?thesis using assms(1)
    by (simp add: app_load_data_to_sqlite_def sqlite3_connect_def load_try_body_def
        execute_create_table_def conn_commit_def conn_close_def table_rows_def)
qed

lemma extract_load_ok:
  assumes "stations_data \<noteq> []" and "\<forall>s\<in>set stations_data. bindable (station_row t s)"
  shows "extract_load_data_to_sqlite NoFault stations_data t w =
           (Inr PyNone, w\<lparr>station_status := Some (table_rows w @ map (station_row t) stations_data), uncommitted := [],
               shown := shown w @ [Print_load_succeeded (length stations_data)]\<rparr>)"
proof -
  let ?w1 = "w\<lparr>uncommitted := [], open_connections := Suc (open_connections w)\<rparr>"
  let ?w2 = "?w1\<lparr>station_status := Some (table_rows ?w1)\<rparr>"
  have "executemany_insert NoFault 0 (map (station_row t) stations_data) ?w2
     = (None, ?w2\<lparr>uncommitted := uncommitted ?w2 @ map (station_row t) stations_data\<rparr>)"
    using assms by (intro executemany_ok) simp_all
  then show ?thesis using assms(1)
    by (simp add: extract_load_data_to_sqlite_def sqlite3_connect_def load_try_body_def
        execute_create_table_def conn_commit_def conn_close_def table_rows_def print_message_def)
qed

section \<open>Lemmas on the ingestion cycle\<close>

lemma app_cycle_try_body_fetch_fails:
  "fetch_fails reply \<Longrightarrow> app_cycle_try_body reply clock f w = (Inl RequestException, w)"
  by (cases reply) (simp_all add: fetch_fails_def app_cycle_try_body_def raise_for_status_def)

lemma extract_cycle_try_body_fetch_fails:
  "fetch_fails reply \<Longrightarrow> extract_cycle_try_body reply clock f w = (Inl RequestException, w)"
  by (cases reply) (simp_all add: fetch_fails_def extract_cycle_try_body_def raise_for_status_def)

text \<open>
  Either the \<^verbatim>\<open>try\<close> block of the cycle stops before the clock is read, with the world
  untouched, or it reads the clock once and hands the stations to the loader.
\<close>

lemma app_cycle_try_body_cases:
  "(\<exists>e. app_cycle_try_body reply clock f w = (Inl e, w)) \<or>
   (\<exists>ss. app_cycle_try_body reply clock f w =
      app_load_data_to_sqlite f ss (clock (now_calls w)) (w\<lparr>now_calls := Suc (now_calls w)\<rparr>))"
proof (cases reply)
  case Get_raises
  then show ?thesis by (simp add: app_cycle_try_body_def)
next
  case (Response status b)
  show ?thesis
  proof (cases "raise_for_status status")
    case (Some e)
    then show ?thesis using Response by (simp add: app_cycle_try_body_def)
  next
    case None
    show ?thesis
    proof (cases "extract_stations b")
      case (Inl e)
      then show ?thesis using Response None by (simp add: app_cycle_try_body_def)
    next
      case (Inr ss)
      then have "app_cycle_try_body reply clock f w =
          app_load_data_to_sqlite f ss (clock (now_calls w)) (w\<lparr>now_calls := Suc (now_calls w)\<rparr>)"
        using Response None by (simp add: app_cycle_try_body_def datetime_now_isoformat_def)
      then show ?thesis by blast
    qed
  qed
qed

lemma extract_cycle_try_body_cases:
  "(\<exists>e. extract_cycle_try_body reply clock f w = (Inl e, w)) \<or>
   (\<exists>ss. extract_cycle_try_body reply clock f w =
      extract_load_data_to_sqlite f ss (clock (now_calls w)) (w\<lparr>now_calls := Suc (now_calls w)\<rparr>))"
proof (cases reply)
  case Get_raises
  then show ?thesis by (simp add: extract_cycle_try_body_def)
next
  case (Response status b)
  show ?thesis
  proof (cases "raise_for_status status")
    case (Some e)
    then show ?thesis using Response by (simp add: extract_cycle_try_body_def)
  next
    case None
    show ?thesis
    proof (cases "extract_stations b")
      case (Inl e)
      then show ?thesis using Response None by (simp add: extract_cycle_try_body_def)
    next
      case (Inr ss)
      then have "extract_cycle_try_body reply clock f w =
          extract_load_data_to_sqlite f ss (clock (now_calls w)) (w\<lparr>now_calls := Suc (now_calls w)\<rparr>)"
        using Response None by (simp add: extract_cycle_try_body_def datetime_now_isoformat_def)
      then show ?thesis by blast
    qed
  qed
qed

text \<open>The rows a call has added to the committed table.\<close>

lemma cycle_handlers_frame:
  "table_rows (print_message m w) = table_rows w \<and> now_calls (print_message m w) = now_calls w"
  by (simp add: print_message_def table_rows_def)

lemma app_cycle_stamp:
  assumes "app_run_ingestion_cycle reply clock f w = (v, w')"
  shows "\<exists>new. table_rows w' = table_rows w @ new \<and>
           list_all (\<lambda>r. snapshot_time r = clock (now_calls w)) new \<and>
           (new = [] \<and> now_calls w' \<le> Suc (now_calls w) \<or> now_calls w' = Suc (now_calls w))"
proof -
  consider (stop) e where "app_cycle_try_body reply clock f w = (Inl e, w)"
    | (load) ss where "app_cycle_try_body reply clock f w =
        app_load_data_to_sqlite f ss (clock (now_calls w)) (w\<lparr>now_calls := Suc (now_calls w)\<rparr>)"
    using app_cycle_try_body_cases [of reply clock f w] by blast
  then show ?thesis
  proof cases
    case stop
    then have "w' = print_message St_error_api_request w \<or> w' = print_message St_error_unexpected_cycle w"
      using assms by (auto simp: app_run_ingestion_cycle_def split: if_splits)
    then have "table_rows w' = table_rows w @ [] \<and> now_calls w' = now_calls w"
      using cycle_handlers_frame by auto
    then show ?thesis by (intro exI [of _ "[]"]) simp
  next
    case load
    let ?w1 = "w\<lparr>now_calls := Suc (now_calls w)\<rparr>"
    let ?t = "clock (now_calls w)"
    obtain res w2 where l: "app_load_data_to_sqlite f ss ?t ?w1 = (res, w2)"
      by (cases "app_load_data_to_sqlite f ss ?t ?w1")
    have eff: "now_calls w2 = Suc (now_calls w) \<and>
         (table_rows w2 = table_rows w \<or> table_rows w2 = table_rows w @ map (station_row ?t) ss)"
      using app_load_effect [OF l] by (auto simp: table_rows_def split: if_splits)
    have "w' = w2 \<or> w' = print_message St_error_api_request w2
             \<or> w' = print_message St_error_unexpected_cycle w2"
      using assms load l by (auto simp: app_run_ingestion_cycle_def split: sum.splits if_splits)
    then have same: "table_rows w' = table_rows w2 \<and> now_calls w' = now_calls w2"
      using cycle_handlers_frame by auto
    have n: "now_calls w' = Suc (now_calls w)" using eff same by simp
    consider "table_rows w2 = table_rows w"
      | "table_rows w2 = table_rows w @ map (station_row ?t) ss" using eff by blast
    then show ?thesis
    proof cases
      case 1
      then show ?thesis using same n by (intro exI [of _ "[]"]) simp
    next
      case 2
      then show ?thesis using same n
        by (intro exI [of _ "map (station_row ?t) ss"]) (simp add: list_all_iff station_row_def)
    qed
  qed
qed

lemma extract_cycle_stamp:
  assumes "extract_run_ingestion_cycle reply clock f w = (v, w')"
  shows "\<exists>new. table_rows w' = table_rows w @ new \<and>
           list_all (\<lambda>r. snapshot_time r = clock (now_calls w)) new \<and>
           (new = [] \<and> now_calls w' \<le> Suc (now_calls w) \<or> now_calls w' = Suc (now_calls w))"
proof -
  consider (stop) e where "extract_cycle_try_body reply clock f w = (Inl e, w)"
    | (load) ss where "extract_cycle_try_body reply clock f w =
        extract_load_data_to_sqlite f ss (clock (now_calls w)) (w\<lparr>now_calls := Suc (now_calls w)\<rparr>)"
    using extract_cycle_try_body_cases [of reply clock f w] by blast
  then show ?thesis
  proof cases
    case stop
    then have "w' = print_message Print_api_request_error w \<or> w' = print_message Print_unexpected_cycle_error w"
      using assms by (auto simp: extract_run_ingestion_cycle_def split: if_splits)
    then have "table_rows w' = table_rows w @ [] \<and> now_calls w' = now_calls w"
      using cycle_handlers_frame by auto
    then show ?thesis by (intro exI [of _ "[]"]) simp
  next
    case load
    let ?w1 = "w\<lparr>now_calls := Suc (now_calls w)\<rparr>"
    let ?t = "clock (now_calls w)"
    obtain res w2 where l: "extract_load_data_to_sqlite f ss ?t ?w1 = (res, w2)"
      by (cases "extract_load_data_to_sqlite f ss ?t ?w1")
    have eff: "now_calls w2 = Suc (now_calls w) \<and>
         (table_rows w2 = table_rows w \<or> table_rows w2 = table_rows w @ map (station_row ?t) ss)"
      using extract_load_effect [OF l] by (auto simp: table_rows_def split: if_splits)
    have "w' = w2 \<or> w' = print_message Print_api_request_error w2
             \<or> w' = print_message Print_unexpected_cycle_error w2"
      using assms load l by (auto simp: extract_run_ingestion_cycle_def split: sum.splits if_splits)
    then have same: "table_rows w' = table_rows w2 \<and> now_calls w' = now_calls w2"
      using cycle_handlers_frame by auto
    have n: "now_calls w' = Suc (now_calls w)" using eff same by simp
    consider "table_rows w2 = table_rows w"
      | "table_rows w2 = table_rows w @ map (station_row ?t) ss" using eff by blast
    then show ?thesis
    proof cases
      case 1
      then show ?thesis using same n by (intro exI [of _ "[]"]) simp
    next
      case 2
      then show ?thesis using same n
        by (intro exI [of _ "map (station_row ?t) ss"]) (simp add: list_all_iff station_row_def)
    qed
  qed
qed

section \<open>Lemmas on the ranking query\<close>

lemma round_half_away_of_int: "round_half_away (of_int n) = n"
  by (simp add: round_half_away_def floor_eq_iff)






text \<open>The ordering of the result.\<close>

lemma set_insert_desc: "set (insert_desc e xs) = insert e (set xs)"
  by (induction xs) auto

lemma sorted_insert_desc:
  "sorted_wrt (\<lambda>a b. avg_bikes b \<le> avg_bikes a) xs \<Longrightarrow>
     sorted_wrt (\<lambda>a b. avg_bikes b \<le> avg_bikes a) (insert_desc e xs)"
proof (induction xs)
  case Nil
  then show ?case by simp
next
  case (Cons x xs)
  have below: "\<forall>y\<in>set xs. avg_bikes y \<le> avg_bikes x" and tl: "sorted_wrt (\<lambda>a b. avg_bikes b \<le> avg_bikes a) xs"
    using Cons.prems by simp_all
  show ?case
  proof (cases "avg_bikes e < avg_bikes x")
    case True
    then have "avg_bikes e \<le> avg_bikes x" by simp
    then show ?thesis using True below Cons.IH [OF tl] by (simp add: set_insert_desc)
  next
    case False
    then have le: "avg_bikes x \<le> avg_bikes e" by simp
    have "\<forall>y\<in>set xs. avg_bikes y \<le> avg_bikes e"
    proof
      fix y assume "y \<in> set xs"
      then have "avg_bikes y \<le> avg_bikes x" using below by simp
      then show "avg_bikes y \<le> avg_bikes e" using le by (rule order_trans)
    qed
    then show ?thesis using False le Cons.prems by simp
  qed
qed

lemma sorted_order_by: "sorted_wrt (\<lambda>a b. avg_bikes b \<le> avg_bikes a) (order_by_avg_bikes_desc es)"
  unfolding order_by_avg_bikes_desc_def
  by (induction es) (simp_all add: sorted_insert_desc)

lemma set_order_by: "set (order_by_avg_bikes_desc es) = set es"
  unfolding order_by_avg_bikes_desc_def
  by (induction es) (simp_all add: set_insert_desc)

lemma length_insert_desc: "length (insert_desc e xs) = Suc (length xs)"
  by (induction xs) auto

lemma length_order_by: "length (order_by_avg_bikes_desc es) = length es"
  unfolding order_by_avg_bikes_desc_def
  by (induction es) (simp_all add: length_insert_desc)





text \<open>
  On a database where the table exists, whatever its rows, the display function gives
  the rows whose \<open>snapshot_time\<close> is the greatest of the table, in rowid order, and the
  empty list for the empty table.
\<close>

lemma display_existing_table:
  assumes "station_status w = Some rows"
  shows "fst (app_get_station_data_for_display NoFault w)
           = Inr (filter (\<lambda>r. \<forall>r'\<in>set rows. snapshot_time r' \<le> snapshot_time r) rows)"
  using assms
  by (simp add: app_get_station_data_for_display_def sqlite3_connect_def
      latest_snapshot_query_Some)

lemma display_empty_table:
  "station_status w = Some [] \<Longrightarrow> fst (app_get_station_data_for_display NoFault w) = Inr []"
  by (simp add: display_existing_table)

section \<open>Lemmas on the select list with the arithmetic left open, and on failing queries\<close>













section \<open>The claims\<close>

text \<open>
  Claim C1. For every valid (bindable) non-empty list of station records, loading it with
  a time stamp strictly greater than every \<open>snapshot_time\<close> already in the table and
  then running the latest-snapshot query returns exactly the rows just written, in
  order, all with that one \<open>snapshot_time\<close>. This holds for the loader of \<^verbatim>\<open>app.py\<close>
  (which answers \<^verbatim>\<open>True\<close>) and for the loader of \<^verbatim>\<open>extract.py\<close>.
\<close>

theorem append_then_read_latest:
  assumes "stations_data \<noteq> []"
    and "\<forall>s\<in>set stations_data. bindable (station_row t s)"
    and "\<forall>r\<in>set (table_rows w). snapshot_time r < t"
  shows "fst (app_load_data_to_sqlite NoFault stations_data t w) = Inr PyTrue \<and>
         fst (app_get_station_data_for_display NoFault
                (snd (app_load_data_to_sqlite NoFault stations_data t w)))
           = Inr (map (station_row t) stations_data) \<and>
         fst (app_get_station_data_for_display NoFault
                (snd (extract_load_data_to_sqlite NoFault stations_data t w)))
           = Inr (map (station_row t) stations_data) \<and>
         (\<forall>r\<in>set (map (station_row t) stations_data). snapshot_time r = t)"
proof -
  have st: "\<forall>r\<in>set (map (station_row t) stations_data). snapshot_time r = t"
    by (simp add: station_row_def)
  have q: "latest_snapshot_query (Some (table_rows w @ map (station_row t) stations_data))
            = Inr (map (station_row t) stations_data)"
    using assms(1,3) st by (intro latest_after_append) simp_all
  show ?thesis
    using q st
    by (simp add: app_load_ok[OF assms(1,2)] extract_load_ok[OF assms(1,2)]
        app_get_station_data_for_display_def sqlite3_connect_def)
qed

theorem append_then_read_latest_witness:
  "[sample_station] \<noteq> [] \<and>
   bindable (station_row ''2024-05-01T08:05:00'' sample_station) \<and>
   list_all (\<lambda>r. snapshot_time r < ''2024-05-01T08:05:00'') (table_rows one_cycle_database) \<and>
   table_rows one_cycle_database \<noteq> [] \<and>
   fst (app_get_station_data_for_display NoFault
          (snd (app_load_data_to_sqlite NoFault [sample_station] ''2024-05-01T08:05:00''
             one_cycle_database)))
     = Inr [station_row ''2024-05-01T08:05:00'' sample_station]"
proof -
  have a: "[sample_station] \<noteq> []" by simp
  have b: "\<forall>s\<in>set [sample_station]. bindable (station_row ''2024-05-01T08:05:00'' s)"
    by (simp add: bindable_def station_row_def sample_station_def in_int64_def)
  have c: "\<forall>r\<in>set (table_rows one_cycle_database). snapshot_time r < ''2024-05-01T08:05:00''"
    by (simp add: table_rows_def one_cycle_database_def station_row_def)
  have d: "table_rows one_cycle_database \<noteq> []"
    by (simp add: table_rows_def one_cycle_database_def)
  show ?thesis
    using a b c d append_then_read_latest [OF a b c] by (simp add: list_all_iff)
qed

text \<open>
  Claim C7. Loading is all-or-nothing. When a storage error (\<^verbatim>\<open>sqlite3.Error\<close>) strikes
  the write of a non-empty batch, no row of the batch is persisted (the committed table
  is what it was), nothing stays uncommitted, and the error is caught and reported:
  \<^verbatim>\<open>app.py\<close> shows it and answers \<^verbatim>\<open>False\<close>, \<^verbatim>\<open>extract.py\<close> prints it and returns. And
  for every fault and every batch, the call leaves as many connections open as it
  found, and the committed table is either unchanged or extended by the whole batch.
\<close>

theorem load_is_all_or_nothing:
  assumes "stations_data \<noteq> []"
    and "fault_strikes f (map (station_row t) stations_data)"
  shows "fst (app_load_data_to_sqlite f stations_data t w) = Inr PyFalse \<and>
         table_rows (snd (app_load_data_to_sqlite f stations_data t w)) = table_rows w \<and>
         (f = ConnectFails \<or> uncommitted (snd (app_load_data_to_sqlite f stations_data t w)) = []) \<and>
         shown (snd (app_load_data_to_sqlite f stations_data t w)) = shown w @ [St_error_sqlite_load] \<and>
         fst (extract_load_data_to_sqlite f stations_data t w) = Inr PyNone \<and>
         table_rows (snd (extract_load_data_to_sqlite f stations_data t w)) = table_rows w \<and>
         shown (snd (extract_load_data_to_sqlite f stations_data t w)) = shown w @ [Print_sqlite_error] \<and>
         (\<forall>f' ss'.
            open_connections (snd (app_load_data_to_sqlite f' ss' t w)) = open_connections w \<and>
            open_connections (snd (extract_load_data_to_sqlite f' ss' t w)) = open_connections w \<and>
            (table_rows (snd (app_load_data_to_sqlite f' ss' t w)) = table_rows w \<or>
             table_rows (snd (app_load_data_to_sqlite f' ss' t w))
               = table_rows w @ map (station_row t) ss') \<and>
            (table_rows (snd (extract_load_data_to_sqlite f' ss' t w)) = table_rows w \<or>
             table_rows (snd (extract_load_data_to_sqlite f' ss' t w))
               = table_rows w @ map (station_row t) ss'))"
proof -
  have a: "fst (app_load_data_to_sqlite f stations_data t w) = Inr PyFalse"
    and b: "shown (snd (app_load_data_to_sqlite f stations_data t w)) = shown w @ [St_error_sqlite_load]"
    and c: "uncommitted (snd (app_load_data_to_sqlite f stations_data t w))
              = (if f = ConnectFails then uncommitted w else [])"
    using app_load_storage_error [OF assms] by simp_all
  have d: "fst (extract_load_data_to_sqlite f stations_data t w) = Inr PyNone"
    and e: "shown (snd (extract_load_data_to_sqlite f stations_data t w)) = shown w @ [Print_sqlite_error]"
    using extract_load_storage_error [OF assms] by simp_all
  have g: "table_rows (snd (app_load_data_to_sqlite f stations_data t w)) = table_rows w"
    using app_load_effect [OF surjective_pairing, of f stations_data t w] a by simp
  have app: "open_connections (snd (app_load_data_to_sqlite f' ss' t w)) = open_connections w \<and>
            (table_rows (snd (app_load_data_to_sqlite f' ss' t w)) = table_rows w \<or>
             table_rows (snd (app_load_data_to_sqlite f' ss' t w))
               = table_rows w @ map (station_row t) ss')" for f' ss'
    using app_load_effect [OF surjective_pairing, of f' ss' t w]
    by (cases "fst (app_load_data_to_sqlite f' ss' t w) = Inr PyTrue") simp_all
  have ext: "open_connections (snd (extract_load_data_to_sqlite f' ss' t w)) = open_connections w \<and>
            (table_rows (snd (extract_load_data_to_sqlite f' ss' t w)) = table_rows w \<or>
             table_rows (snd (extract_load_data_to_sqlite f' ss' t w))
               = table_rows w @ map (station_row t) ss')" for f' ss'
    using extract_load_effect [OF surjective_pairing, of f' ss' t w] by auto
  have h: "table_rows (snd (extract_load_data_to_sqlite f stations_data t w)) = table_rows w"
  proof -
    obtain x w2 where l: "load_try_body f stations_data t
        (w\<lparr>uncommitted := [], open_connections := Suc (open_connections w)\<rparr>) = (x, w2)"
      by (cases "load_try_body f stations_data t
        (w\<lparr>uncommitted := [], open_connections := Suc (open_connections w)\<rparr>)")
    show ?thesis
    proof (cases "f = ConnectFails")
      case True
      then show ?thesis using assms(1)
        by (simp add: extract_load_data_to_sqlite_def sqlite3_connect_def print_message_def
            table_rows_def)
    next
      case False
      have x: "x = Some SqliteError"
        using load_try_body_sqlite_error [OF assms(2) False,
            of "w\<lparr>uncommitted := [], open_connections := Suc (open_connections w)\<rparr>"] l
        by simp
      have "table_rows w2 = table_rows w"
        using load_try_body_frame [OF l] x by (simp add: table_rows_def)
      then show ?thesis using assms(1) False l x
        by (simp add: extract_load_data_to_sqlite_def sqlite3_connect_def print_message_def
            conn_close_def conn_rollback_def table_rows_def)
    qed
  qed
  show ?thesis using a b c d e g h app ext by simp
qed

theorem load_is_all_or_nothing_witness:
  "[sample_station, second_station] \<noteq> [] \<and>
   fault_strikes (InsertFails 1)
     (map (station_row ''2024-05-01T08:05:00'') [sample_station, second_station]) \<and>
   fst (app_load_data_to_sqlite (InsertFails 1) [sample_station, second_station]
          ''2024-05-01T08:05:00'' one_cycle_database) = Inr PyFalse \<and>
   table_rows (snd (app_load_data_to_sqlite (InsertFails 1) [sample_station, second_station]
          ''2024-05-01T08:05:00'' one_cycle_database)) = table_rows one_cycle_database"
proof -
  have a: "[sample_station, second_station] \<noteq> []" by simp
  have b: "fault_strikes (InsertFails 1)
     (map (station_row ''2024-05-01T08:05:00'') [sample_station, second_station])"
    by (simp add: fault_strikes_def bindable_def station_row_def sample_station_def
        second_station_def in_int64_def)
  show ?thesis
    using a b load_is_all_or_nothing [OF a b, of one_cycle_database] by simp
qed

text \<open>
  Claim C9, as the code has it. For the empty list \<^verbatim>\<open>load_data_to_sqlite\<close> leaves the
  world as it is (no connection is opened, nothing is written) and raises nothing; it
  hands back \<^verbatim>\<open>None\<close> from its bare \<^verbatim>\<open>return\<close>, which is neither the \<^verbatim>\<open>True\<close> of a
  successful load nor the \<^verbatim>\<open>False\<close> of a failed one, and \<^verbatim>\<open>extract.py\<close> prints the
  warning that there is nothing to insert.
\<close>

theorem load_empty_is_noop:
  "app_load_data_to_sqlite f [] t w = (Inr PyNone, w) \<and>
   extract_load_data_to_sqlite f [] t w = (Inr PyNone, print_message Print_no_data_to_insert w) \<and>
   station_status (print_message Print_no_data_to_insert w) = station_status w \<and>
   uncommitted (print_message Print_no_data_to_insert w) = uncommitted w \<and>
   open_connections (print_message Print_no_data_to_insert w) = open_connections w"
  by (simp add: app_load_data_to_sqlite_def extract_load_data_to_sqlite_def print_message_def)

text \<open>
  Claim C9 as stated says that the empty load reports success. The value of a successful
  load in \<^verbatim>\<open>app.py\<close> is \<^verbatim>\<open>True\<close>; the empty load does not return it.
\<close>

theorem load_empty_reports_success_counterexample:
  "fst (app_load_data_to_sqlite NoFault [] ''2024-05-01T08:05:00'' one_cycle_database) \<noteq> Inr PyTrue"
  by (simp add: app_load_data_to_sqlite_def)

text \<open>
  Claim C2, as the code has it. When the fetch fails, that is when \<^verbatim>\<open>requests.get\<close>
  raises or the response has a status from 400 to 599 (the codes \<^verbatim>\<open>raise_for_status\<close>
  raises for), the cycle writes nothing to the store (the world changes by the message
  only), does not raise, and reports the failure through the handler of
  \<^verbatim>\<open>RequestException\<close>: \<^verbatim>\<open>app.py\<close> shows the API error and answers \<^verbatim>\<open>False\<close>,
  \<^verbatim>\<open>extract.py\<close> prints it.
\<close>

theorem failed_fetch_writes_nothing:
  assumes "fetch_fails reply"
  shows "app_run_ingestion_cycle reply clock f w = (PyFalse, print_message St_error_api_request w) \<and>
         extract_run_ingestion_cycle reply clock f w
           = (PyNone, print_message Print_api_request_error w) \<and>
         station_status (print_message St_error_api_request w) = station_status w \<and>
         station_status (print_message Print_api_request_error w) = station_status w \<and>
         uncommitted (print_message St_error_api_request w) = uncommitted w \<and>
         uncommitted (print_message Print_api_request_error w) = uncommitted w"
  using app_cycle_try_body_fetch_fails [OF assms] extract_cycle_try_body_fetch_fails [OF assms]
  by (simp add: app_run_ingestion_cycle_def extract_run_ingestion_cycle_def print_message_def)

theorem failed_fetch_writes_nothing_witness:
  "fetch_fails (Response 503 sample_body) \<and>
   app_run_ingestion_cycle (Response 503 sample_body) sample_clock NoFault one_cycle_database
     = (PyFalse, print_message St_error_api_request one_cycle_database) \<and>
   station_status (print_message St_error_api_request one_cycle_database)
     = station_status one_cycle_database"
proof -
  have a: "fetch_fails (Response 503 sample_body)" by (simp add: fetch_fails_def)
  show ?thesis
    using a failed_fetch_writes_nothing [OF a, of sample_clock NoFault one_cycle_database]
    by simp
qed

text \<open>
  Claim C2 as stated counts every status outside 200 to 299 as a failed fetch. A
  response with status 300 and a body with two stations is not raised for: the cycle
  loads the two rows and answers \<^verbatim>\<open>True\<close>.
\<close>

theorem non_2xx_fetch_counterexample:
  "fst (app_run_ingestion_cycle (Response 300 sample_body) sample_clock NoFault one_cycle_database)
     = PyTrue \<and>
   length (table_rows (snd (app_run_ingestion_cycle (Response 300 sample_body) sample_clock
      NoFault one_cycle_database))) = 3 \<and>
   length (table_rows one_cycle_database) = 1"
proof -
  have b: "\<forall>s\<in>set [sample_station, second_station].
      bindable (station_row ''2024-05-01T08:05:00'' s)"
    by (simp add: bindable_def station_row_def sample_station_def second_station_def in_int64_def)
  have "app_cycle_try_body (Response 300 sample_body) sample_clock NoFault one_cycle_database
      = app_load_data_to_sqlite NoFault [sample_station, second_station] ''2024-05-01T08:05:00''
          (one_cycle_database\<lparr>now_calls := Suc (now_calls one_cycle_database)\<rparr>)"
    by (simp add: app_cycle_try_body_def raise_for_status_def extract_stations_def
        sample_body_def datetime_now_isoformat_def sample_clock_def one_cycle_database_def)
  then show ?thesis
    using app_load_ok [OF _ b, of "one_cycle_database\<lparr>now_calls := Suc (now_calls one_cycle_database)\<rparr>"]
    by (simp add: app_run_ingestion_cycle_def table_rows_def one_cycle_database_def)
qed

text \<open>
  Claim C6. The rows a cycle adds to the table all carry one \<open>snapshot_time\<close>, the
  reading of the clock taken by this cycle (the reading number \<open>now_calls\<close> of the world
  it starts in); a cycle reads the clock at most once, and exactly once when it adds a
  row. The reading is taken before the loader is called, which builds every row of the
  batch from that one string.
\<close>

theorem cycle_stamps_one_timestamp:
  "(\<exists>new. table_rows (snd (app_run_ingestion_cycle reply clock f w)) = table_rows w @ new \<and>
     list_all (\<lambda>r. snapshot_time r = clock (now_calls w)) new \<and>
     (new = [] \<and> now_calls (snd (app_run_ingestion_cycle reply clock f w)) \<le> Suc (now_calls w) \<or>
      now_calls (snd (app_run_ingestion_cycle reply clock f w)) = Suc (now_calls w))) \<and>
   (\<exists>new. table_rows (snd (extract_run_ingestion_cycle reply clock f w)) = table_rows w @ new \<and>
     list_all (\<lambda>r. snapshot_time r = clock (now_calls w)) new \<and>
     (new = [] \<and> now_calls (snd (extract_run_ingestion_cycle reply clock f w)) \<le> Suc (now_calls w) \<or>
      now_calls (snd (extract_run_ingestion_cycle reply clock f w)) = Suc (now_calls w)))"
proof
  show "\<exists>new. table_rows (snd (app_run_ingestion_cycle reply clock f w)) = table_rows w @ new \<and>
     list_all (\<lambda>r. snapshot_time r = clock (now_calls w)) new \<and>
     (new = [] \<and> now_calls (snd (app_run_ingestion_cycle reply clock f w)) \<le> Suc (now_calls w) \<or>
      now_calls (snd (app_run_ingestion_cycle reply clock f w)) = Suc (now_calls w))"
    using app_cycle_stamp [OF surjective_pairing] .
  show "\<exists>new. table_rows (snd (extract_run_ingestion_cycle reply clock f w)) = table_rows w @ new \<and>
     list_all (\<lambda>r. snapshot_time r = clock (now_calls w)) new \<and>
     (new = [] \<and> now_calls (snd (extract_run_ingestion_cycle reply clock f w)) \<le> Suc (now_calls w) \<or>
      now_calls (snd (extract_run_ingestion_cycle reply clock f w)) = Suc (now_calls w))"
    using extract_cycle_stamp [OF surjective_pairing] .
qed

text \<open>A run of the cycle on a response with two stations, one cycle after the first.\<close>

theorem cycle_stamps_one_timestamp_witness:
  "table_rows (snd (app_run_ingestion_cycle (Response 200 sample_body) sample_clock NoFault
      one_cycle_database))
     = table_rows one_cycle_database @
         [station_row ''2024-05-01T08:05:00'' sample_station,
          station_row ''2024-05-01T08:05:00'' second_station] \<and>
   now_calls (snd (app_run_ingestion_cycle (Response 200 sample_body) sample_clock NoFault
      one_cycle_database)) = Suc (now_calls one_cycle_database)"
proof -
  have b: "\<forall>s\<in>set [sample_station, second_station].
      bindable (station_row ''2024-05-01T08:05:00'' s)"
    by (simp add: bindable_def station_row_def sample_station_def second_station_def in_int64_def)
  have "app_cycle_try_body (Response 200 sample_body) sample_clock NoFault one_cycle_database
      = app_load_data_to_sqlite NoFault [sample_station, second_station] ''2024-05-01T08:05:00''
          (one_cycle_database\<lparr>now_calls := Suc (now_calls one_cycle_database)\<rparr>)"
    by (simp add: app_cycle_try_body_def raise_for_status_def extract_stations_def
        sample_body_def datetime_now_isoformat_def sample_clock_def one_cycle_database_def)
  then show ?thesis
    using app_load_ok [OF _ b, of "one_cycle_database\<lparr>now_calls := Suc (now_calls one_cycle_database)\<rparr>"]
      cycle_stamps_one_timestamp [of "Response 200 sample_body" sample_clock NoFault one_cycle_database]
    by (simp add: app_run_ingestion_cycle_def table_rows_def one_cycle_database_def)
qed

text \<open>
  Claim C3. Whenever the ranking query gives a result, it has at most 10 entries and
  \<open>avg_bikes\<close> does not increase along it (\<^verbatim>\<open>NULL\<close> counting as the smallest value, so
  last).
\<close>

theorem ranking_at_most_10_descending:
  assumes "SQL_RANKING_QUERY table = Inr ranking"
  shows "length ranking \<le> 10 \<and> sorted_wrt (\<lambda>a b. avg_bikes b \<le> avg_bikes a) ranking"
proof -
  obtain rows entries where "table = Some rows"
    and "select_all (group_by_station_id_name rows) = Inr entries"
    and r: "ranking = take 10 (order_by_avg_bikes_desc entries)"
    using assms by (auto simp: SQL_RANKING_QUERY_def split: option.splits sum.splits)
  have "sorted_wrt (\<lambda>a b. avg_bikes b \<le> avg_bikes a) (take 10 (order_by_avg_bikes_desc entries))"
    using sorted_order_by by (rule sorted_wrt_take)
  then show ?thesis using r by simp
qed

theorem ranking_at_most_10_descending_witness:
  "map (\<lambda>e. (entry_station_id e, avg_bikes e))
     (projr (SQL_RANKING_QUERY (Some (map (station_row ''2024-05-01T08:00:00'') eleven_stations))))
     = [(Some ''11'', Some 11), (Some ''10'', Some 10), (Some ''09'', Some 9),
        (Some ''08'', Some 8), (Some ''07'', Some 7), (Some ''06'', Some 6),
        (Some ''05'', Some 5), (Some ''04'', Some 4), (Some ''03'', Some 3),
        (Some ''02'', Some 2)] \<and>
   isl (SQL_RANKING_QUERY (Some (map (station_row ''2024-05-01T08:00:00'') eleven_stations)))
     = False \<and>
   length (projr (SQL_RANKING_QUERY
     (Some (map (station_row ''2024-05-01T08:00:00'') eleven_stations)))) \<le> 10"
proof -
  have v: "map (\<lambda>e. (entry_station_id e, avg_bikes e))
     (projr (SQL_RANKING_QUERY (Some (map (station_row ''2024-05-01T08:00:00'') eleven_stations))))
     = [(Some ''11'', Some 11), (Some ''10'', Some 10), (Some ''09'', Some 9),
        (Some ''08'', Some 8), (Some ''07'', Some 7), (Some ''06'', Some 6),
        (Some ''05'', Some 5), (Some ''04'', Some 4), (Some ''03'', Some 3),
        (Some ''02'', Some 2)]"
    by code_simp
  have i: "isl (SQL_RANKING_QUERY (Some (map (station_row ''2024-05-01T08:00:00'') eleven_stations)))
     = False"
    by code_simp
  then have q: "SQL_RANKING_QUERY (Some (map (station_row ''2024-05-01T08:00:00'') eleven_stations))
     = Inr (projr (SQL_RANKING_QUERY
         (Some (map (station_row ''2024-05-01T08:00:00'') eleven_stations))))"
    by (cases "SQL_RANKING_QUERY (Some (map (station_row ''2024-05-01T08:00:00'') eleven_stations))")
      simp_all
  have l: "length (projr (SQL_RANKING_QUERY
     (Some (map (station_row ''2024-05-01T08:00:00'') eleven_stations)))) \<le> 10"
    using ranking_at_most_10_descending [OF q] by (rule conjunct1)
  show ?thesis
    using v i l by (intro conjI)
qed

text \<open>
  Claim C4. For a table of exactly the two rows (t1, "S1", 5 bikes, 5 docks) and
  (t2, "S1", 7 bikes, 3 docks), with one name, whatever the times and the coordinates,
  the ranking query gives the one entry of station S1 with \<open>snapshots_count = 2\<close>,
  \<open>total_bikes = 12\<close>, \<open>avg_bikes = 6\<close> and \<open>avg_utilization_percent = 60\<close>.
\<close>

theorem ranking_of_two_snapshots:
  "SQL_RANKING_QUERY
     (Some [\<lparr>snapshot_time = t1, station_id = Some ''S1'', name = n,
              num_bikes_available = Some 5, num_docks_available = Some 5,
              latitude = la1, longitude = lo1\<rparr>,
            \<lparr>snapshot_time = t2, station_id = Some ''S1'', name = n,
              num_bikes_available = Some 7, num_docks_available = Some 3,
              latitude = la2, longitude = lo2\<rparr>])
   = Inr [\<lparr>entry_station_id = Some ''S1'', entry_name = n, snapshots_count = 2,
            total_bikes = Some 12, avg_bikes = Some 6, avg_utilization_percent = Some 60\<rparr>]"
  by (simp add: SQL_RANKING_QUERY_def group_by_station_id_name_def group_key_def
      select_ranking_entry_def sql_sum_def in_int64_def sql_count_star_def sql_avg_def
      sql_cast_real_def utilization_ratio_def sql_add_def sql_divide_def sql_times_def
      sql_round_def round_half_away_of_int [of 6000, simplified] order_by_avg_bikes_desc_def)






text \<open>
  Claim C8 on a database in which the table has never been created (the dashboard
  started before any ingestion): the store has no rows, and the claim says that the
  latest snapshot is then the empty sequence and not an error. The query fails with
  "no such table" inside \<^verbatim>\<open>pd.read_sql_query\<close>, which raises its own \<^verbatim>\<open>DatabaseError\<close>;
  the clause \<^verbatim>\<open>except sqlite3.Error\<close>, written to answer with an empty data frame, does
  not match it, and the exception leaves \<^verbatim>\<open>get_station_data_for_display\<close>.
\<close>

theorem display_on_fresh_database_raises:
  "app_get_station_data_for_display NoFault fresh_database
     = (Inl PandasDatabaseError, fresh_database)"
  by (simp add: app_get_station_data_for_display_def sqlite3_connect_def fresh_database_def
      latest_snapshot_query_def conn_close_def)

end
